theory Spec2Isabelle
  imports Complex_Main
begin

section \<open>Python values shared by the modules\<close>

text \<open>
  The exceptions the modelled functions can raise. A call that raises is the left
  injection of a sum, a call that returns is the right one.
\<close>

datatype error = TypeError | NotImplementedError | ValueError | UnboundLocalError

text \<open>
  \<^verbatim>\<open>UnsafeIndex\<close> of \<^verbatim>\<open>common.plug_indexes\<close>: \<^verbatim>\<open>None\<close>, a window
  index (an \<^verbatim>\<open>int\<close>) or a plugin index (a tuple of \<^verbatim>\<open>int\<close>s: one component for a
  generator, two for an effect). The filters test the shape at run time, so a tuple
  of any length is a value of the model.
\<close>

datatype unsafe_index = NoneIndex | IntIndex int | TupleIndex "int list"

section \<open>Index filters (plugs/tick\_filters/index.py)\<close>

definition isinstance_tuple :: "unsafe_index \<Rightarrow> bool" where
  "isinstance_tuple index = (case index of TupleIndex t \<Rightarrow> True | _ \<Rightarrow> False)"

definition isinstance_int :: "unsafe_index \<Rightarrow> bool" where
  "isinstance_int index = (case index of IntIndex n \<Rightarrow> True | _ \<Rightarrow> False)"

text \<open>
  \<^verbatim>\<open>len(index)\<close> stands behind \<^verbatim>\<open>isinstance(index, tuple) and\<close>, which
  short-circuits: it is only evaluated on a tuple.
\<close>

definition toPluginIndex :: "unsafe_index \<Rightarrow> bool" where
  "toPluginIndex index = isinstance_tuple index"

definition toGeneratorIndex :: "unsafe_index \<Rightarrow> bool" where
  "toGeneratorIndex index =
     (if isinstance_tuple index
      then (case index of TupleIndex t \<Rightarrow> length t = 1 | _ \<Rightarrow> False)
      else False)"

definition toEffectIndex :: "unsafe_index \<Rightarrow> bool" where
  "toEffectIndex index =
     (if isinstance_tuple index
      then (case index of TupleIndex t \<Rightarrow> length t = 2 | _ \<Rightarrow> False)
      else False)"

definition toWindowIndex :: "unsafe_index \<Rightarrow> bool" where
  "toWindowIndex index = isinstance_int index"

definition toSafeIndex :: "unsafe_index \<Rightarrow> bool" where
  "toSafeIndex index = (index \<noteq> NoneIndex)"

text \<open>
  Modelled from the spec: the decorator \<^verbatim>\<open>do_filter\<close> of
  \<^verbatim>\<open>plugs/tick_filters/decorator.py\<close> is not among the sources. The spec describes
  the filters as guard predicates evaluated before a bound callback is invoked, and
  \<^verbatim>\<open>tests/filter_test.py\<close> uses them so: the decorated function calls the callback
  when the predicate holds for the index, and otherwise returns without calling it.
  \<open>Some r\<close> is the callback's outcome \<open>r\<close>; \<open>None\<close> is a filtered call, whose
  return value the sources do not show.
\<close>

definition do_filter :: "(unsafe_index \<Rightarrow> bool) \<Rightarrow> (unsafe_index \<Rightarrow> 'r) \<Rightarrow> unsafe_index \<Rightarrow> 'r option" where
  "do_filter predicate func index = (if predicate index then Some (func index) else None)"

text \<open>
  The harness of \<^verbatim>\<open>tests/filter_test.py\<close>: \<^verbatim>\<open>get_function\<close> decorates a function
  that raises \<^verbatim>\<open>ValueError\<close> whenever it is invoked, and \<^verbatim>\<open>was_filtered\<close> is true
  when the call comes back without that exception.
\<close>

definition get_function :: "(unsafe_index \<Rightarrow> bool) \<Rightarrow> unsafe_index \<Rightarrow> (error + unit) option" where
  "get_function filter_pred = do_filter filter_pred (\<lambda>index. Inl ValueError)"

definition was_filtered :: "(unsafe_index \<Rightarrow> (error + unit) option) \<Rightarrow> unsafe_index \<Rightarrow> bool" where
  "was_filtered func index = (case func index of Some (Inl ValueError) \<Rightarrow> False | _ \<Rightarrow> True)"

section \<open>PedalStrategy (plugs/mapping\_strategies/pedal\_strategy.py)\<close>

text \<open>
  The class of the pedal control that produced the event (\<^verbatim>\<open>type(s.getControl())\<close>):
  the three classes the callback knows, and any other subclass of \<^verbatim>\<open>Pedal\<close> by name.
\<close>

datatype pedal = SustainPedal | SostenutoPedal | SoftPedal | OtherPedal string

text \<open>
  The constants imported from \<^verbatim>\<open>common.consts\<close> and
  \<^verbatim>\<open>control_surfaces.controls.pedal\<close> are not among the sources: they are
  parameters.
\<close>

record pedal_consts =
  PARAM_CC_START :: int
  SUSTAIN :: int
  SOSTENUTO :: int
  SOFT :: int

text \<open>
  One call \<^verbatim>\<open>plugins.setParamValue(value, param, *index)\<close> of the host API. The
  host is the list of the calls it has received, oldest first.
\<close>

record param_write =
  pw_value :: real
  pw_param :: int
  pw_index :: "int list"

definition setParamValue :: "real \<Rightarrow> int \<Rightarrow> int list \<Rightarrow> param_write list \<Rightarrow> param_write list" where
  "setParamValue v p index host = host @ [\<lparr>pw_value = v, pw_param = p, pw_index = index\<rparr>]"

record pedal_strategy =
  raise_flag :: bool

definition PedalStrategy_init :: "bool \<Rightarrow> pedal_strategy" where
  "PedalStrategy_init raise_on_error = \<lparr>raise_flag = raise_on_error\<rparr>"

text \<open>
  The body of \<^verbatim>\<open>pedalCallback\<close>. \<open>isPluginVst\<close> (of \<^verbatim>\<open>common.util.api_fixes\<close>,
  a query of the host) is a parameter; \<open>cvalue\<close> is \<^verbatim>\<open>control.value\<close>. The result is
  the outcome of the call and the host after it.
\<close>

definition pedalCallback_body ::
  "pedal_consts \<Rightarrow> (int list \<Rightarrow> bool) \<Rightarrow> pedal_strategy \<Rightarrow> real \<Rightarrow> int list \<Rightarrow> pedal
     \<Rightarrow> param_write list \<Rightarrow> (error + bool) \<times> param_write list" where
  "pedalCallback_body k isPluginVst self cvalue index t_ped host =
     (if \<not> isPluginVst index then
        (if raise_flag self then (Inl TypeError, host) else (Inr False, host))
      else if t_ped = SustainPedal then
        (Inr True, setParamValue cvalue (PARAM_CC_START k + SUSTAIN k) index host)
      else if t_ped = SostenutoPedal then
        (Inr True, setParamValue cvalue (PARAM_CC_START k + SOSTENUTO k) index host)
      else if t_ped = SoftPedal then
        (Inr True, setParamValue cvalue (PARAM_CC_START k + SOFT k) index host)
      else (Inl NotImplementedError, host))"

text \<open>
  \<^verbatim>\<open>pedalCallback\<close> as bound: the body behind \<^verbatim>\<open>@toPluginIndex()\<close>. The body
  is only reached with a tuple, whose components it reads.
\<close>

definition pedalCallback ::
  "pedal_consts \<Rightarrow> (int list \<Rightarrow> bool) \<Rightarrow> pedal_strategy \<Rightarrow> real \<Rightarrow> unsafe_index \<Rightarrow> pedal
     \<Rightarrow> param_write list \<Rightarrow> ((error + bool) \<times> param_write list) option" where
  "pedalCallback k isPluginVst self cvalue index t_ped host =
     do_filter toPluginIndex
       (\<lambda>i. case i of
          TupleIndex t \<Rightarrow> pedalCallback_body k isPluginVst self cvalue t t_ped host
        | _ \<Rightarrow> (Inl TypeError, host))
       index"

section \<open>ShiftMatcher (control\_surfaces/matchers/shift\_matcher.py)\<close>

subsection \<open>The objects the matcher works on\<close>

text \<open>
  \<^verbatim>\<open>Color\<close> of \<^verbatim>\<open>common.types\<close>: the two class constants the matcher assigns, and
  any other colour by its integer.
\<close>

datatype color = ENABLED | DISABLED | Color int

text \<open>
  \<^verbatim>\<open>ControlEvent\<close>, the result of a match: the matcher reads its \<^verbatim>\<open>value\<close> and
  \<^verbatim>\<open>double\<close> attributes; \<open>ev_control\<close> is the handle of the control it came from.
\<close>

record control_event =
  ev_control :: nat
  ev_value :: real
  ev_double :: bool

text \<open>
  A \<^verbatim>\<open>ControlSurface\<close>: the attributes the matcher assigns (\<^verbatim>\<open>value\<close>,
  \<^verbatim>\<open>color\<close>), and the rest of the object (its pattern, the time of its last
  press, ...) as \<open>hidden\<close>. Controls are shared objects: they live in a store, and
  views and matchers hold handles (addresses) of them. The sub-matchers are objects
  of classes that are not among the sources; their states are the \<open>matchers\<close>
  component of the store.
\<close>

record 'h control =
  ctl_value :: real
  ctl_color :: color
  hidden :: 'h

record ('h, 'm) world =
  controls :: "nat \<Rightarrow> 'h control"
  matchers :: 'm

text \<open>
  The methods of the classes that are not among the sources are parameters:
  \<^item> \<open>cs_match\<close> is \<^verbatim>\<open>ControlSurface.match(event)\<close>, applied to the control's state:
    \<open>None\<close> when the event is not the control's (the control is left as it is),
    otherwise the control event and the control after the match;
  \<^item> \<open>isinstance_NullControl\<close> tells whether the object at a handle is a
    \<^verbatim>\<open>NullControl\<close>;
  \<^item> \<open>cs_doTick\<close> is \<^verbatim>\<open>ControlSurface.doTick(thorough)\<close>;
  \<^item> \<open>m_matchEvent\<close> and \<open>m_tick\<close> are \<^verbatim>\<open>IControlMatcher.matchEvent(event)\<close> and
    \<^verbatim>\<open>IControlMatcher.tick(thorough)\<close> of the sub-matcher at a handle; they may
    change any control and any sub-matcher's state, but not the private attributes
    of the \<^verbatim>\<open>ShiftMatcher\<close> that calls them.
\<close>

record ('e, 'h, 'm) env =
  cs_match :: "'e \<Rightarrow> 'h control \<Rightarrow> (control_event \<times> 'h control) option"
  isinstance_NullControl :: "nat \<Rightarrow> bool"
  cs_doTick :: "bool \<Rightarrow> 'h control \<Rightarrow> 'h control"
  m_matchEvent :: "nat \<Rightarrow> 'e \<Rightarrow> ('h, 'm) world \<Rightarrow> control_event option \<times> ('h, 'm) world"
  m_tick :: "nat \<Rightarrow> bool \<Rightarrow> ('h, 'm) world \<Rightarrow> ('h, 'm) world"

text \<open>
  \<^verbatim>\<open>ShiftView\<close>. Its attributes are assigned once, by the constructor. The matcher
  compares views with \<^verbatim>\<open>is\<close>: \<open>view_id\<close> is the identity of the object, so that two
  views are the same object exactly when the records are equal. \<open>trigger\<close> is the
  handle of the trigger control, \<open>view\<close> the handle of the view's sub-matcher.
\<close>

record shift_view =
  view_id :: nat
  trigger :: nat
  view :: nat
  ignore_single_press :: bool
  disable_in_other_views :: bool
  allow_fallback_match :: bool
  debug :: bool

definition ShiftView_init :: "nat \<Rightarrow> nat \<Rightarrow> nat \<Rightarrow> bool \<Rightarrow> bool \<Rightarrow> bool \<Rightarrow> bool \<Rightarrow> shift_view" where
  "ShiftView_init ident trigger_h view_h ignore_single disable_in_other allow_fallback dbg =
     \<lparr>view_id = ident, trigger = trigger_h, view = view_h,
      ignore_single_press = ignore_single, disable_in_other_views = disable_in_other,
      allow_fallback_match = allow_fallback, debug = dbg\<rparr>"

text \<open>
  The private attributes of a \<^verbatim>\<open>ShiftMatcher\<close>: \<open>null_control\<close> is the handle of
  \<^verbatim>\<open>__null\<close>, \<open>main\<close> the handle of the main sub-matcher.
\<close>

record shift_matcher =
  null_control :: nat
  main :: nat
  views :: "shift_view list"
  active_view :: "shift_view option"
  sustained :: bool
  changed :: bool

text \<open>\<^verbatim>\<open>ShiftMatcher.__init__\<close>; \<open>null_h\<close> is the handle of the null control it creates.\<close>

definition ShiftMatcher_init :: "nat \<Rightarrow> nat \<Rightarrow> shift_view list \<Rightarrow> shift_matcher" where
  "ShiftMatcher_init null_h main_view vs =
     \<lparr>null_control = null_h, main = main_view, views = vs, active_view = None,
      sustained = False, changed = True\<rparr>"

subsection \<open>matchEvent\<close>

text \<open>The assignments \<^verbatim>\<open>c.value = v\<close> and \<^verbatim>\<open>c.color = col\<close> to the control at a handle.\<close>

definition put_control :: "nat \<Rightarrow> 'h control \<Rightarrow> ('h, 'm) world \<Rightarrow> ('h, 'm) world" where
  "put_control h c w = w\<lparr>controls := (controls w)(h := c)\<rparr>"

definition set_value :: "nat \<Rightarrow> real \<Rightarrow> ('h, 'm) world \<Rightarrow> ('h, 'm) world" where
  "set_value h v w = put_control h ((controls w h)\<lparr>ctl_value := v\<rparr>) w"

definition set_color :: "nat \<Rightarrow> color \<Rightarrow> ('h, 'm) world \<Rightarrow> ('h, 'm) world" where
  "set_color h col w = put_control h ((controls w h)\<lparr>ctl_color := col\<rparr>) w"

text \<open>
  The test at the head of the loop body (lines 111 to 116): the view is passed over
  when another view is active and this one is disabled in other views.
\<close>

definition skip_view :: "shift_matcher \<Rightarrow> shift_view \<Rightarrow> bool" where
  "skip_view self v =
     (active_view self \<noteq> None \<and> active_view self \<noteq> Some v \<and> disable_in_other_views v)"

text \<open>
  The loop body once the trigger of view \<open>v\<close> has matched (lines 118 to 149):
  \<open>control\<close> is the control event, \<open>w\<close> the store after the trigger's match. Every
  path returns from \<^verbatim>\<open>matchEvent\<close>: the result is the returned value, the matcher
  and the store.
\<close>

definition on_trigger ::
  "('e, 'h, 'm) env \<Rightarrow> 'e \<Rightarrow> shift_view \<Rightarrow> control_event \<Rightarrow> shift_matcher \<Rightarrow> ('h, 'm) world
     \<Rightarrow> control_event option \<times> shift_matcher \<times> ('h, 'm) world" where
  "on_trigger env event v control self w =
     (if ev_value control = 0 then
        (if active_view self = Some v then
           (if sustained self then
              (Some control, self\<lparr>sustained := False\<rparr>,
               set_color (trigger v) ENABLED (set_value (trigger v) 1 w))
            else
              (Some control, self\<lparr>changed := True, active_view := None\<rparr>,
               set_color (trigger v) DISABLED w))
         else (Some control, self, w))
      else if active_view self = Some v then
        (case cs_match env event (controls w (null_control self)) of
           None \<Rightarrow> (None, self, w)
         | Some (m, c) \<Rightarrow> (Some m, self, put_control (null_control self) c w))
      else if ev_double control then
        (Some control, self\<lparr>sustained := True, active_view := Some v, changed := True\<rparr>,
         set_color (trigger v) ENABLED w)
      else if ignore_single_press v then (Some control, self, w)
      else
        (Some control, self\<lparr>active_view := Some v, changed := True\<rparr>,
         set_color (trigger v) ENABLED w))"

text \<open>
  The loop over \<^verbatim>\<open>self.__views\<close> (lines 109 to 149), on the views still to visit:
  \<open>Some\<close> is a \<^verbatim>\<open>return\<close> from inside the loop, \<open>None\<close> is the loop running to
  its end. An iteration that does not return changes nothing.
\<close>

fun trigger_loop ::
  "('e, 'h, 'm) env \<Rightarrow> 'e \<Rightarrow> shift_view list \<Rightarrow> shift_matcher \<Rightarrow> ('h, 'm) world
     \<Rightarrow> (control_event option \<times> shift_matcher \<times> ('h, 'm) world) option" where
  "trigger_loop env event [] self w = None"
| "trigger_loop env event (v # rest) self w =
     (if skip_view self v then trigger_loop env event rest self w
      else
        (case cs_match env event (controls w (trigger v)) of
           None \<Rightarrow> trigger_loop env event rest self w
         | Some (control, c) \<Rightarrow>
             Some (on_trigger env event v control self (put_control (trigger v) c w))))"

text \<open>
  \<^verbatim>\<open>ShiftMatcher.matchEvent\<close>. After the loop the variable \<^verbatim>\<open>view\<close> is still bound
  to the last element of \<^verbatim>\<open>self.__views\<close> (a \<^verbatim>\<open>continue\<close> does not unbind it), and
  line 155 reads \<^verbatim>\<open>view.allow_fallback_match\<close>; with no views the name is unbound.
  The result is the outcome (a raised error, or the returned optional control event),
  the matcher and the store.
\<close>

definition matchEvent ::
  "('e, 'h, 'm) env \<Rightarrow> shift_matcher \<Rightarrow> 'e \<Rightarrow> ('h, 'm) world
     \<Rightarrow> (error + control_event option) \<times> shift_matcher \<times> ('h, 'm) world" where
  "matchEvent env self event w =
     (case trigger_loop env event (views self) self w of
        Some (r, self', w') \<Rightarrow> (Inr r, self', w')
      | None \<Rightarrow>
          (case active_view self of
             Some av \<Rightarrow>
               (case m_matchEvent env (view av) event w of
                  (Some m, w1) \<Rightarrow> (Inr (Some m), self, w1)
                | (None, w1) \<Rightarrow>
                    (if views self = [] then (Inl UnboundLocalError, self, w1)
                     else if allow_fallback_match (last (views self)) then
                       (case m_matchEvent env (main self) event w1 of
                          (r, w2) \<Rightarrow> (Inr r, self, w2))
                     else (Inr None, self, w1)))
           | None \<Rightarrow>
               (case m_matchEvent env (main self) event w of
                  (r, w1) \<Rightarrow> (Inr r, self, w1))))"

subsection \<open>tick\<close>

text \<open>
  \<^verbatim>\<open>tick\<close> reads no result of the calls it makes on other objects, so its model
  first lists those calls in the order they are made, then runs them on the store.
\<close>

datatype call = SetColor nat color | DoTick nat bool | MatcherTick nat bool

text \<open>One iteration of the loop over the views (lines 174 to 185).\<close>

definition tick_view :: "('e, 'h, 'm) env \<Rightarrow> shift_matcher \<Rightarrow> bool \<Rightarrow> shift_view \<Rightarrow> call list" where
  "tick_view env self thorough v =
     (if active_view self \<noteq> Some v \<and> disable_in_other_views v then []
      else
        (if isinstance_NullControl env (trigger v)
         then [SetColor (trigger v) (if active_view self = Some v then ENABLED else DISABLED)]
         else [])
        @ [DoTick (trigger v) thorough])"

definition tick_calls :: "('e, 'h, 'm) env \<Rightarrow> shift_matcher \<Rightarrow> bool \<Rightarrow> call list" where
  "tick_calls env self thorough =
     (let thorough' = (if changed self then True else thorough) in
        concat (map (tick_view env self thorough') (views self))
        @ [case active_view self of
             None \<Rightarrow> MatcherTick (main self) thorough'
           | Some av \<Rightarrow> MatcherTick (view av) thorough'])"

fun run_call :: "('e, 'h, 'm) env \<Rightarrow> ('h, 'm) world \<Rightarrow> call \<Rightarrow> ('h, 'm) world" where
  "run_call env w (SetColor h col) = set_color h col w"
| "run_call env w (DoTick h thorough) = put_control h (cs_doTick env thorough (controls w h)) w"
| "run_call env w (MatcherTick m thorough) = m_tick env m thorough w"

definition tick ::
  "('e, 'h, 'm) env \<Rightarrow> shift_matcher \<Rightarrow> bool \<Rightarrow> ('h, 'm) world \<Rightarrow> shift_matcher \<times> ('h, 'm) world" where
  "tick env self thorough w =
     (self\<lparr>changed := False\<rparr>, foldl (run_call env) w (tick_calls env self thorough))"

subsection \<open>Runs of the matcher\<close>

text \<open>
  The view that claims an event, read off the head of the loop: the first view, in
  the order of registration, that is not passed over and whose trigger matches. With
  it come the control event and the trigger's state after the match. An event
  \<^emph>\<open>on the trigger of\<close> a view is one that this view claims.
\<close>

fun claimant ::
  "('e, 'h, 'm) env \<Rightarrow> 'e \<Rightarrow> shift_view list \<Rightarrow> shift_matcher \<Rightarrow> ('h, 'm) world
     \<Rightarrow> (shift_view \<times> control_event \<times> 'h control) option" where
  "claimant env event [] self w = None"
| "claimant env event (v # rest) self w =
     (if skip_view self v then claimant env event rest self w
      else
        (case cs_match env event (controls w (trigger v)) of
           None \<Rightarrow> claimant env event rest self w
         | Some (control, c) \<Rightarrow> Some (v, control, c)))"

text \<open>
  The host calls \<^verbatim>\<open>matchEvent\<close> and \<^verbatim>\<open>tick\<close> one at a time. A state is the matcher
  with the store; \<open>step\<close> is the state after \<^verbatim>\<open>matchEvent\<close>, \<open>run\<close> the state after
  a sequence of calls.
\<close>

definition step ::
  "('e, 'h, 'm) env \<Rightarrow> 'e \<Rightarrow> shift_matcher \<times> ('h, 'm) world \<Rightarrow> shift_matcher \<times> ('h, 'm) world" where
  "step env event s = snd (matchEvent env (fst s) event (snd s))"

definition returned ::
  "('e, 'h, 'm) env \<Rightarrow> 'e \<Rightarrow> shift_matcher \<times> ('h, 'm) world \<Rightarrow> error + control_event option" where
  "returned env event s = fst (matchEvent env (fst s) event (snd s))"

datatype 'e host_call = MatchEvent 'e | Tick bool

fun host_step ::
  "('e, 'h, 'm) env \<Rightarrow> shift_matcher \<times> ('h, 'm) world \<Rightarrow> 'e host_call
     \<Rightarrow> shift_matcher \<times> ('h, 'm) world" where
  "host_step env s (MatchEvent event) = step env event s"
| "host_step env s (Tick thorough) = tick env (fst s) thorough (snd s)"

definition run ::
  "('e, 'h, 'm) env \<Rightarrow> shift_matcher \<times> ('h, 'm) world \<Rightarrow> 'e host_call list
     \<Rightarrow> shift_matcher \<times> ('h, 'm) world" where
  "run env s calls = foldl (host_step env) s calls"

fun is_MatcherTick :: "call \<Rightarrow> bool" where
  "is_MatcherTick (MatcherTick m thorough) = True"
| "is_MatcherTick c = False"

text \<open>
  The invariant of the matcher's private state: a sustained matcher has an active view,
  and the active view is one of the registered views.
\<close>

definition matcher_inv :: "shift_matcher \<Rightarrow> bool" where
  "matcher_inv self =
     ((if sustained self then active_view self \<noteq> None else True)
      \<and> (case active_view self of None \<Rightarrow> True | Some v \<Rightarrow> v \<in> set (views self)))"

subsection \<open>A concrete device\<close>

text \<open>
  A small instance on which the properties below are evaluated. An event is a note
  number, a value and the double-press flag; a control holds its own handle and the
  note its pattern accepts (\<open>None\<close> for the pattern that accepts everything). The
  control at handle 0 is the null control, the controls at handles 1 and 2 are the
  triggers of two views. The main matcher (handle 0) owns the notes from 10 on, the
  sub-matcher at handle \<open>m\<close> owns note \<open>10 + m\<close>.
\<close>

type_synonym ex_event = "nat \<times> real \<times> bool"

type_synonym ex_hidden = "nat \<times> nat option"

definition ex_cs_match ::
  "ex_event \<Rightarrow> ex_hidden control \<Rightarrow> (control_event \<times> ex_hidden control) option" where
  "ex_cs_match event c =
     (case event of (note, v, d) \<Rightarrow>
        (if snd (hidden c) = None \<or> snd (hidden c) = Some note
         then Some (\<lparr>ev_control = fst (hidden c), ev_value = v, ev_double = d\<rparr>,
                    c\<lparr>ctl_value := v\<rparr>)
         else None))"

definition ex_m_matchEvent ::
  "nat \<Rightarrow> ex_event \<Rightarrow> (ex_hidden, unit) world \<Rightarrow> control_event option \<times> (ex_hidden, unit) world" where
  "ex_m_matchEvent m event w =
     (case event of (note, v, d) \<Rightarrow>
        (if note = 10 + m \<or> (m = 0 \<and> 10 \<le> note)
         then (Some \<lparr>ev_control = note, ev_value = v, ev_double = d\<rparr>, set_value note v w)
         else (None, w)))"

definition ex_env :: "(ex_event, ex_hidden, unit) env" where
  "ex_env =
     \<lparr>cs_match = ex_cs_match, isinstance_NullControl = (\<lambda>h. h = 0),
      cs_doTick = (\<lambda>thorough c. c), m_matchEvent = ex_m_matchEvent,
      m_tick = (\<lambda>m thorough w. w)\<rparr>"

definition ex_world :: "(ex_hidden, unit) world" where
  "ex_world =
     \<lparr>controls = (\<lambda>h. \<lparr>ctl_value = 0, ctl_color = Color 0,
                          hidden = (h, if h = 0 then None else Some h)\<rparr>),
      matchers = ()\<rparr>"

text \<open>
  View \<open>ex_V\<close> does not allow the fallback match; view \<open>ex_W\<close> allows it and is
  disabled in other views; view \<open>ex_D\<close> opens on a double press only. \<open>ex_matcher\<close>
  is built by the constructor from \<open>ex_V\<close> and \<open>ex_W\<close>, in this order, and
  \<open>ex_doubles\<close> from \<open>ex_D\<close> and \<open>ex_V\<close>.
\<close>

definition ex_V :: shift_view where
  "ex_V = ShiftView_init 1 1 1 False False False False"

definition ex_W :: shift_view where
  "ex_W = ShiftView_init 2 2 2 False True True False"

definition ex_D :: shift_view where
  "ex_D = ShiftView_init 3 3 3 True False True False"

definition ex_matcher :: shift_matcher where
  "ex_matcher = ShiftMatcher_init 0 0 [ex_V, ex_W]"

definition ex_doubles :: shift_matcher where
  "ex_doubles = ShiftMatcher_init 0 0 [ex_D, ex_V]"

text \<open>
  View \<open>ex_E\<close> opens on a double press only and is disabled in other views;
  \<open>ex_guarded\<close> is built from \<open>ex_V\<close> and \<open>ex_E\<close>.
\<close>

definition ex_E :: shift_view where
  "ex_E = ShiftView_init 4 4 4 True True True False"

definition ex_guarded :: shift_matcher where
  "ex_guarded = ShiftMatcher_init 0 0 [ex_V, ex_E]"

text \<open>
  The class docstring of \<^verbatim>\<open>ShiftMatcher\<close> has the trigger controls set their own LED
  when their value changes (\<^verbatim>\<open>onValueChange\<close>). \<open>ex_led_match\<close> is the match of such
  a control: it lights the control on a press and dims it on a lift. \<open>ex_led_env\<close> is
  the concrete device with these controls.
\<close>

definition ex_led_match ::
  "ex_event \<Rightarrow> ex_hidden control \<Rightarrow> (control_event \<times> ex_hidden control) option" where
  "ex_led_match event c =
     (case ex_cs_match event c of
        None \<Rightarrow> None
      | Some (m, c') \<Rightarrow>
          Some (m, c'\<lparr>ctl_color := (if ev_value m = 0 then DISABLED else ENABLED)\<rparr>))"

definition ex_led_env :: "(ex_event, ex_hidden, unit) env" where
  "ex_led_env = ex_env\<lparr>cs_match := ex_led_match\<rparr>"

section \<open>Properties of the index filters\<close>

lemma toPluginIndex_shape: "toPluginIndex index = (\<exists>t. index = TupleIndex t)"
  by (cases index) (simp_all add: toPluginIndex_def isinstance_tuple_def)

lemma toGeneratorIndex_shape: "toGeneratorIndex index = (\<exists>a. index = TupleIndex [a])"
  by (cases index)
     (simp_all add: toGeneratorIndex_def isinstance_tuple_def length_Suc_conv)

lemma toEffectIndex_shape: "toEffectIndex index = (\<exists>a b. index = TupleIndex [a, b])"
  by (cases index)
     (auto simp add: toEffectIndex_def isinstance_tuple_def length_Suc_conv numeral_2_eq_2)

lemma toWindowIndex_shape: "toWindowIndex index = (\<exists>n. index = IntIndex n)"
  by (cases index) (simp_all add: toWindowIndex_def isinstance_int_def)

lemma do_filter_invoked: "(do_filter p f index \<noteq> None) = p index"
  by (simp add: do_filter_def)

lemma was_filtered_iff: "was_filtered (get_function p) index = (\<not> p index)"
  by (simp add: was_filtered_def get_function_def do_filter_def)

text \<open>
  C10. Each index filter holds exactly for its shape of index: \<open>toPluginIndex\<close> for
  a tuple, \<open>toGeneratorIndex\<close> for a tuple of one component, \<open>toEffectIndex\<close> for a
  tuple of two, \<open>toWindowIndex\<close> for an integer and \<open>toSafeIndex\<close> for anything but
  \<^verbatim>\<open>None\<close>; and a callback decorated with a filter is invoked exactly when the
  filter's predicate holds for the index (the test's \<open>was_filtered\<close> is its negation).
\<close>

theorem C10_index_filters:
  "toPluginIndex index = (\<exists>t. index = TupleIndex t)
   \<and> toGeneratorIndex index = (\<exists>a. index = TupleIndex [a])
   \<and> toEffectIndex index = (\<exists>a b. index = TupleIndex [a, b])
   \<and> toWindowIndex index = (\<exists>n. index = IntIndex n)
   \<and> toSafeIndex index = (index \<noteq> NoneIndex)
   \<and> (do_filter toPluginIndex f index \<noteq> None) = toPluginIndex index
   \<and> (do_filter toGeneratorIndex f index \<noteq> None) = toGeneratorIndex index
   \<and> (do_filter toEffectIndex f index \<noteq> None) = toEffectIndex index
   \<and> (do_filter toWindowIndex f index \<noteq> None) = toWindowIndex index
   \<and> (do_filter toSafeIndex f index \<noteq> None) = toSafeIndex index
   \<and> was_filtered (get_function toPluginIndex) index = (\<not> toPluginIndex index)
   \<and> was_filtered (get_function toGeneratorIndex) index = (\<not> toGeneratorIndex index)
   \<and> was_filtered (get_function toEffectIndex) index = (\<not> toEffectIndex index)
   \<and> was_filtered (get_function toWindowIndex) index = (\<not> toWindowIndex index)
   \<and> was_filtered (get_function toSafeIndex) index = (\<not> toSafeIndex index)"
  unfolding do_filter_invoked was_filtered_iff
  using toPluginIndex_shape [of index] toGeneratorIndex_shape [of index]
    toEffectIndex_shape [of index] toWindowIndex_shape [of index]
  by (simp only: toSafeIndex_def simp_thms)

section \<open>Properties of PedalStrategy\<close>

text \<open>
  C9. A call of \<open>pedalCallback\<close> with a plugin index (a tuple, which passes the
  filter) that is not a VST raises \<open>TypeError\<close> when the strategy was built with
  \<open>raise_on_error\<close> true and returns \<open>False\<close> otherwise, and the host has received no
  parameter write. With a VST index, a sustain, sostenuto or soft pedal makes exactly one
  parameter write (the control's value, to the pedal's CC parameter, at the index) and
  the call returns \<open>True\<close>; any other pedal class raises \<open>NotImplementedError\<close>,
  with no write.
\<close>

theorem C9_pedalCallback:
  "pedalCallback k isPluginVst (PedalStrategy_init raise_on_error) cvalue (TupleIndex t) t_ped host =
     Some
      (if \<not> isPluginVst t then
         ((if raise_on_error then Inl TypeError else Inr False), host)
       else if t_ped = SustainPedal \<or> t_ped = SostenutoPedal \<or> t_ped = SoftPedal then
         (Inr True,
          host @ [\<lparr>pw_value = cvalue,
                   pw_param = PARAM_CC_START k +
                     (if t_ped = SustainPedal then SUSTAIN k
                      else if t_ped = SostenutoPedal then SOSTENUTO k else SOFT k),
                   pw_index = t\<rparr>])
       else (Inl NotImplementedError, host))"
  by (simp add: pedalCallback_def do_filter_def toPluginIndex_def isinstance_tuple_def
      pedalCallback_body_def PedalStrategy_init_def setParamValue_def)

section \<open>Properties of ShiftMatcher\<close>

text \<open>The definitions unfolded to evaluate the matcher on the concrete device.\<close>

lemmas ex_defs =
  ex_matcher_def ShiftMatcher_init_def ex_V_def ex_W_def ex_D_def ShiftView_init_def ex_env_def
  ex_cs_match_def ex_world_def ex_m_matchEvent_def ex_doubles_def ex_E_def ex_guarded_def
  ex_led_match_def ex_led_env_def

lemmas matcher_defs =
  step_def returned_def matchEvent_def skip_view_def on_trigger_def put_control_def
  set_color_def set_value_def

lemmas tick_defs = run_def tick_def tick_calls_def tick_view_def

subsection \<open>The loop and the claiming view\<close>

lemma trigger_loop_claimant:
  "trigger_loop env event vs self w =
     map_option (\<lambda>(v, control, c). on_trigger env event v control self (put_control (trigger v) c w))
       (claimant env event vs self w)"
  by (induction vs) (simp_all split: option.split)

lemma claimant_sound:
  "claimant env event vs self w = Some (v, control, c) \<Longrightarrow>
     v \<in> set vs \<and> \<not> skip_view self v
     \<and> cs_match env event (controls w (trigger v)) = Some (control, c)"
  by (induction vs) (auto split: if_splits option.splits)

text \<open>
  A view claims the event when it is not passed over, its trigger matches, and every
  view registered before it is passed over or has a trigger that does not match.
\<close>

lemma claimant_first:
  assumes "\<forall>u \<in> set pre. skip_view self u \<or> cs_match env event (controls w (trigger u)) = None"
    and "\<not> skip_view self V"
    and "cs_match env event (controls w (trigger V)) = Some (control, c)"
  shows "claimant env event (pre @ V # post) self w = Some (V, control, c)"
  using assms by (induction pre) auto

lemma claimant_removeAll:
  "skip_view self u \<Longrightarrow>
     claimant env event (removeAll u vs) self w = claimant env event vs self w"
  by (induction vs) (auto split: option.split)

lemma matchEvent_claimed:
  assumes "claimant env event (views self) self w = Some (v, control, c)"
  shows "matchEvent env self event w =
     (case on_trigger env event v control self (put_control (trigger v) c w) of
        (r, self', w') \<Rightarrow> (Inr r, self', w'))"
  using assms by (simp add: matchEvent_def trigger_loop_claimant split: prod.split)

lemma matchEvent_unclaimed:
  assumes "claimant env event (views self) self w = None"
  shows "fst (snd (matchEvent env self event w)) = self"
  using assms
  by (simp add: matchEvent_def trigger_loop_claimant split: option.split prod.split)

subsection \<open>The transitions on a trigger\<close>

lemma step_open_double:
  assumes "claimant env event (views self) self w = Some (v, control, c)"
    and "ev_value control \<noteq> 0" and "active_view self \<noteq> Some v" and "ev_double control"
  shows "matchEvent env self event w =
     (Inr (Some control), self\<lparr>sustained := True, active_view := Some v, changed := True\<rparr>,
      set_color (trigger v) ENABLED (put_control (trigger v) c w))"
  using assms by (simp add: matchEvent_claimed on_trigger_def)

lemma step_open_single:
  assumes "claimant env event (views self) self w = Some (v, control, c)"
    and "ev_value control \<noteq> 0" and "active_view self \<noteq> Some v" and "\<not> ev_double control"
    and "\<not> ignore_single_press v"
  shows "matchEvent env self event w =
     (Inr (Some control), self\<lparr>active_view := Some v, changed := True\<rparr>,
      set_color (trigger v) ENABLED (put_control (trigger v) c w))"
  using assms by (simp add: matchEvent_claimed on_trigger_def)

lemma step_ignored:
  assumes "claimant env event (views self) self w = Some (v, control, c)"
    and "ev_value control \<noteq> 0" and "active_view self \<noteq> Some v" and "\<not> ev_double control"
    and "ignore_single_press v"
  shows "matchEvent env self event w = (Inr (Some control), self, put_control (trigger v) c w)"
  using assms by (simp add: matchEvent_claimed on_trigger_def)

lemma step_swallowed:
  assumes "claimant env event (views self) self w = Some (v, control, c)"
    and "ev_value control \<noteq> 0" and "active_view self = Some v"
  shows "matchEvent env self event w =
     (case cs_match env event (controls (put_control (trigger v) c w) (null_control self)) of
        None \<Rightarrow> (Inr None, self, put_control (trigger v) c w)
      | Some (m, c0) \<Rightarrow>
          (Inr (Some m), self, put_control (null_control self) c0 (put_control (trigger v) c w)))"
  using assms by (simp add: matchEvent_claimed on_trigger_def split: option.split)

lemma step_lift_sustained:
  assumes "claimant env event (views self) self w = Some (v, control, c)"
    and "ev_value control = 0" and "active_view self = Some v" and "sustained self"
  shows "matchEvent env self event w =
     (Inr (Some control), self\<lparr>sustained := False\<rparr>,
      set_color (trigger v) ENABLED (set_value (trigger v) 1 (put_control (trigger v) c w)))"
  using assms by (simp add: matchEvent_claimed on_trigger_def)

lemma step_lift_close:
  assumes "claimant env event (views self) self w = Some (v, control, c)"
    and "ev_value control = 0" and "active_view self = Some v" and "\<not> sustained self"
  shows "matchEvent env self event w =
     (Inr (Some control), self\<lparr>changed := True, active_view := None\<rparr>,
      set_color (trigger v) DISABLED (put_control (trigger v) c w))"
  using assms by (simp add: matchEvent_claimed on_trigger_def)

lemma step_lift_other:
  assumes "claimant env event (views self) self w = Some (v, control, c)"
    and "ev_value control = 0" and "active_view self \<noteq> Some v"
  shows "matchEvent env self event w = (Inr (Some control), self, put_control (trigger v) c w)"
  using assms by (simp add: matchEvent_claimed on_trigger_def)

lemma color_after_set_color [simp]: "ctl_color (controls (set_color h col w) h) = col"
  by (simp add: set_color_def put_control_def)

lemma value_after_set_color [simp]:
  "ctl_value (controls (set_color h col w) h') = ctl_value (controls w h')"
  by (simp add: set_color_def put_control_def)

lemma value_after_set_value [simp]: "ctl_value (controls (set_value h x w) h) = x"
  by (simp add: set_value_def put_control_def)

subsection \<open>Press and lift\<close>

text \<open>
  C3. From a matcher with no active view (and so not sustained), a single press (not a
  double press, value not 0) on the trigger of a view \<open>V\<close> that does not ignore single
  presses returns the trigger's match and makes \<open>V\<close> the active view; a lift (value 0)
  on the trigger then returns the trigger's match and leaves no view active.
\<close>

theorem C3_press_lift_round_trip:
  assumes "active_view self = None" and "\<not> sustained self"
    and "claimant env press (views self) self w = Some (V, control, c)"
    and "ev_value control \<noteq> 0" and "\<not> ev_double control" and "\<not> ignore_single_press V"
    and "s1 = step env press (self, w)"
    and "claimant env lift (views (fst s1)) (fst s1) (snd s1) = Some (V, control', c')"
    and "ev_value control' = 0"
    and "s2 = step env lift s1"
  shows "returned env press (self, w) = Inr (Some control)
    \<and> active_view (fst s1) = Some V \<and> \<not> sustained (fst s1)
    \<and> returned env lift s1 = Inr (Some control')
    \<and> active_view (fst s2) = None"
proof -
  have m1: "matchEvent env self press w =
     (Inr (Some control), self\<lparr>active_view := Some V, changed := True\<rparr>,
      set_color (trigger V) ENABLED (put_control (trigger V) c w))"
    using assms(1,3-6) by (intro step_open_single) simp_all
  have s1: "fst s1 = self\<lparr>active_view := Some V, changed := True\<rparr>"
    using m1 assms(7) by (simp add: step_def)
  have open1: "active_view (fst s1) = Some V" "\<not> sustained (fst s1)"
    using s1 assms(2) by simp_all
  have m2: "matchEvent env (fst s1) lift (snd s1) =
     (Inr (Some control'), (fst s1)\<lparr>changed := True, active_view := None\<rparr>,
      set_color (trigger V) DISABLED (put_control (trigger V) c' (snd s1)))"
    using assms(8,9) open1 by (intro step_lift_close) simp_all
  show ?thesis
    using m1 m2 open1 assms(10) by (simp add: step_def returned_def)
qed


theorem C3_witness:
  "active_view ex_matcher = None \<and> \<not> sustained ex_matcher
   \<and> claimant ex_env (1, 1, False) (views ex_matcher) ex_matcher ex_world =
       Some (ex_V, \<lparr>ev_control = 1, ev_value = 1, ev_double = False\<rparr>,
             \<lparr>ctl_value = 1, ctl_color = Color 0, hidden = (1, Some 1)\<rparr>)
   \<and> \<not> ignore_single_press ex_V
   \<and> returned ex_env (1, 1, False) (ex_matcher, ex_world) =
       Inr (Some \<lparr>ev_control = 1, ev_value = 1, ev_double = False\<rparr>)
   \<and> active_view (fst (step ex_env (1, 1, False) (ex_matcher, ex_world))) = Some ex_V
   \<and> active_view (fst (step ex_env (1, 0, False)
        (step ex_env (1, 1, False) (ex_matcher, ex_world)))) = None"
  using C3_press_lift_round_trip [of ex_matcher ex_env "(1, 1, False)" ex_world ex_V
      "\<lparr>ev_control = 1, ev_value = 1, ev_double = False\<rparr>"
      "\<lparr>ctl_value = 1, ctl_color = Color 0, hidden = (1, Some 1)\<rparr>"
      "step ex_env (1, 1, False) (ex_matcher, ex_world)" "(1, 0, False)"
      "\<lparr>ev_control = 1, ev_value = 0, ev_double = False\<rparr>"
      "\<lparr>ctl_value = 0, ctl_color = ENABLED, hidden = (1, Some 1)\<rparr>"
      "step ex_env (1, 0, False) (step ex_env (1, 1, False) (ex_matcher, ex_world))"]
  by (simp add: matcher_defs ex_defs)


text \<open>
  C7. While view \<open>V\<close> is active, a press (value not 0) on the trigger of \<open>V\<close> returns
  what the null control's match returns, not the trigger's match, and leaves the
  matcher as it was: the active view and the sustained flag do not change, and the
  view is not entered again.
\<close>

theorem C7_press_in_open_view:
  assumes "active_view self = Some V"
    and "claimant env event (views self) self w = Some (V, control, c)"
    and "ev_value control \<noteq> 0"
  shows "returned env event (self, w) =
       Inr (map_option fst
         (cs_match env event (controls (put_control (trigger V) c w) (null_control self))))
    \<and> fst (step env event (self, w)) = self"
  using step_swallowed [OF assms(2,3,1)]
  by (simp add: returned_def step_def split: option.split)

theorem C7_witness:
  "active_view (fst (step ex_env (1, 1, False) (ex_matcher, ex_world))) = Some ex_V
   \<and> claimant ex_env (1, 1 / 2, False) (views ex_matcher)
        (fst (step ex_env (1, 1, False) (ex_matcher, ex_world)))
        (snd (step ex_env (1, 1, False) (ex_matcher, ex_world))) =
       Some (ex_V, \<lparr>ev_control = 1, ev_value = 1 / 2, ev_double = False\<rparr>,
             \<lparr>ctl_value = 1 / 2, ctl_color = ENABLED, hidden = (1, Some 1)\<rparr>)
   \<and> returned ex_env (1, 1 / 2, False) (step ex_env (1, 1, False) (ex_matcher, ex_world)) =
       Inr (Some \<lparr>ev_control = 0, ev_value = 1 / 2, ev_double = False\<rparr>)
   \<and> fst (step ex_env (1, 1 / 2, False) (step ex_env (1, 1, False) (ex_matcher, ex_world))) =
       fst (step ex_env (1, 1, False) (ex_matcher, ex_world))"
  using C7_press_in_open_view [of "fst (step ex_env (1, 1, False) (ex_matcher, ex_world))" ex_V
      ex_env "(1, 1 / 2, False)" "snd (step ex_env (1, 1, False) (ex_matcher, ex_world))"
      "\<lparr>ev_control = 1, ev_value = 1 / 2, ev_double = False\<rparr>"
      "\<lparr>ctl_value = 1 / 2, ctl_color = ENABLED, hidden = (1, Some 1)\<rparr>"]
  by (simp add: matcher_defs ex_defs)

text \<open>
  C8, as the code has it. A single press (not a double press, value not 0) that a
  view \<open>V\<close> claims, where \<open>V\<close> ignores single presses and is not active, returns the
  trigger's match and leaves the matcher unchanged: the active view, the sustained flag
  and the dirty flag are the same after the call. The matcher assigns nothing to the
  trigger on this path: the store after the call is the store after the trigger's own
  match, and the trigger's colour is the one that match left.
\<close>

theorem C8_ignored_single_press:
  assumes "ignore_single_press V" and "active_view self \<noteq> Some V"
    and "claimant env event (views self) self w = Some (V, control, c)"
    and "ev_value control \<noteq> 0" and "\<not> ev_double control"
  shows "returned env event (self, w) = Inr (Some control)
    \<and> fst (step env event (self, w)) = self
    \<and> active_view (fst (step env event (self, w))) = active_view self
    \<and> sustained (fst (step env event (self, w))) = sustained self
    \<and> changed (fst (step env event (self, w))) = changed self
    \<and> snd (step env event (self, w)) = put_control (trigger V) c w
    \<and> ctl_color (controls (snd (step env event (self, w))) (trigger V)) = ctl_color c"
  using step_ignored [OF assms(3,4,2,5,1)]
  by (simp add: returned_def step_def put_control_def)

theorem C8_witness:
  "ignore_single_press ex_D \<and> active_view ex_doubles \<noteq> Some ex_D
   \<and> claimant ex_env (3, 1, False) (views ex_doubles) ex_doubles ex_world =
       Some (ex_D, \<lparr>ev_control = 3, ev_value = 1, ev_double = False\<rparr>,
             \<lparr>ctl_value = 1, ctl_color = Color 0, hidden = (3, Some 3)\<rparr>)
   \<and> returned ex_env (3, 1, False) (ex_doubles, ex_world) =
       Inr (Some \<lparr>ev_control = 3, ev_value = 1, ev_double = False\<rparr>)
   \<and> fst (step ex_env (3, 1, False) (ex_doubles, ex_world)) = ex_doubles
   \<and> snd (step ex_env (3, 1, False) (ex_doubles, ex_world)) =
       put_control 3 \<lparr>ctl_value = 1, ctl_color = Color 0, hidden = (3, Some 3)\<rparr> ex_world
   \<and> ctl_color (controls (snd (step ex_env (3, 1, False) (ex_doubles, ex_world))) 3) = Color 0"
  using C8_ignored_single_press [of ex_D ex_doubles ex_env "(3, 1, False)" ex_world
      "\<lparr>ev_control = 3, ev_value = 1, ev_double = False\<rparr>"
      "\<lparr>ctl_value = 1, ctl_color = Color 0, hidden = (3, Some 3)\<rparr>"]
  by (simp add: matcher_defs ex_defs)

text \<open>
  C8 as stated fails in two ways. First, while \<open>ex_V\<close> is active, a single press that
  the trigger of \<open>ex_E\<close> (not active, ignoring single presses, disabled in other views)
  matches is not tested against that trigger, and the call returns no match instead of
  the trigger's match. Second, on the device whose controls set their own LED when
  their value changes, the single press that \<open>ex_D\<close> claims leaves the matcher as it
  was, but the trigger's colour after the call is not the colour before.
\<close>

theorem C8_counterexample:
  "ignore_single_press ex_E
   \<and> active_view (fst (step ex_env (1, 1, False) (ex_guarded, ex_world))) = Some ex_V
   \<and> ex_E \<noteq> ex_V
   \<and> cs_match ex_env (4, 1, False)
        (controls (snd (step ex_env (1, 1, False) (ex_guarded, ex_world))) (trigger ex_E)) =
       Some (\<lparr>ev_control = 4, ev_value = 1, ev_double = False\<rparr>,
             \<lparr>ctl_value = 1, ctl_color = Color 0, hidden = (4, Some 4)\<rparr>)
   \<and> returned ex_env (4, 1, False) (step ex_env (1, 1, False) (ex_guarded, ex_world)) = Inr None
   \<and> ignore_single_press ex_D \<and> active_view ex_doubles = None
   \<and> claimant ex_led_env (3, 1, False) (views ex_doubles) ex_doubles ex_world =
       Some (ex_D, \<lparr>ev_control = 3, ev_value = 1, ev_double = False\<rparr>,
             \<lparr>ctl_value = 1, ctl_color = ENABLED, hidden = (3, Some 3)\<rparr>)
   \<and> ctl_color (controls ex_world (trigger ex_D)) = Color 0
   \<and> ctl_color (controls (snd (step ex_led_env (3, 1, False) (ex_doubles, ex_world)))
        (trigger ex_D)) = ENABLED"
  by (simp add: matcher_defs ex_defs)

subsection \<open>Double press and sustain\<close>

text \<open>
  C2, as the code has it. A double press (value not 0) that a view \<open>V\<close> claims while it
  is not active (its trigger matches, no view registered before it claims the event,
  and \<open>V\<close> is not passed over as disabled in other views while another view is active)
  makes \<open>V\<close> active and sustained. A lift of the trigger then keeps \<open>V\<close> active, clears the
  sustained flag, sets the trigger's value to 1 and its colour to enabled. A press
  that follows is swallowed (the null control's match is returned and the matcher does
  not change), and the lift after it leaves no view active and sets the trigger's
  colour to disabled.
\<close>

theorem C2_double_press_sustains:
  assumes "active_view self \<noteq> Some V"
    and "claimant env double_press (views self) self w = Some (V, control1, c1)"
    and "ev_value control1 \<noteq> 0" and "ev_double control1"
    and "s1 = step env double_press (self, w)"
    and "claimant env lift1 (views (fst s1)) (fst s1) (snd s1) = Some (V, control2, c2)"
    and "ev_value control2 = 0"
    and "s2 = step env lift1 s1"
    and "claimant env press (views (fst s2)) (fst s2) (snd s2) = Some (V, control3, c3)"
    and "ev_value control3 \<noteq> 0"
    and "s3 = step env press s2"
    and "claimant env lift2 (views (fst s3)) (fst s3) (snd s3) = Some (V, control4, c4)"
    and "ev_value control4 = 0"
    and "s4 = step env lift2 s3"
  shows "active_view (fst s1) = Some V \<and> sustained (fst s1)
    \<and> active_view (fst s2) = Some V \<and> \<not> sustained (fst s2)
    \<and> ctl_value (controls (snd s2) (trigger V)) = 1
    \<and> ctl_color (controls (snd s2) (trigger V)) = ENABLED
    \<and> returned env press s2 =
        Inr (map_option fst
          (cs_match env press (controls (put_control (trigger V) c3 (snd s2)) (null_control (fst s2)))))
    \<and> fst s3 = fst s2
    \<and> active_view (fst s4) = None
    \<and> ctl_color (controls (snd s4) (trigger V)) = DISABLED"
proof -
  have m1: "matchEvent env self double_press w =
     (Inr (Some control1), self\<lparr>sustained := True, active_view := Some V, changed := True\<rparr>,
      set_color (trigger V) ENABLED (put_control (trigger V) c1 w))"
    using assms(2,3,1,4) by (rule step_open_double)
  have st1: "active_view (fst s1) = Some V" "sustained (fst s1)"
    using m1 assms(5) by (simp_all add: step_def)
  have m2: "matchEvent env (fst s1) lift1 (snd s1) =
     (Inr (Some control2), (fst s1)\<lparr>sustained := False\<rparr>,
      set_color (trigger V) ENABLED (set_value (trigger V) 1 (put_control (trigger V) c2 (snd s1))))"
    using assms(6,7) st1 by (rule step_lift_sustained)
  have st2: "active_view (fst s2) = Some V" "\<not> sustained (fst s2)"
    "ctl_value (controls (snd s2) (trigger V)) = 1"
    "ctl_color (controls (snd s2) (trigger V)) = ENABLED"
    using m2 st1 assms(8) by (simp_all add: step_def)
  have r3: "returned env press s2 =
        Inr (map_option fst
          (cs_match env press (controls (put_control (trigger V) c3 (snd s2)) (null_control (fst s2)))))"
    and st3: "fst s3 = fst s2"
    using step_swallowed [OF assms(9,10) st2(1)] assms(11)
    by (simp_all add: returned_def step_def split: option.split)
  have m4: "matchEvent env (fst s3) lift2 (snd s3) =
     (Inr (Some control4), (fst s3)\<lparr>changed := True, active_view := None\<rparr>,
      set_color (trigger V) DISABLED (put_control (trigger V) c4 (snd s3)))"
    using assms(12,13) st2(1,2) st3 by (intro step_lift_close) simp_all
  have st4: "active_view (fst s4) = None" "ctl_color (controls (snd s4) (trigger V)) = DISABLED"
    using m4 assms(14) by (simp_all add: step_def)
  show ?thesis using st1 st2 r3 st3 st4 by simp
qed

theorem C2_witness:
  "active_view ex_matcher \<noteq> Some ex_V
   \<and> claimant ex_env (1, 1, True) (views ex_matcher) ex_matcher ex_world =
       Some (ex_V, \<lparr>ev_control = 1, ev_value = 1, ev_double = True\<rparr>,
             \<lparr>ctl_value = 1, ctl_color = Color 0, hidden = (1, Some 1)\<rparr>)
   \<and> active_view (fst (step ex_env (1, 1, True) (ex_matcher, ex_world))) = Some ex_V
   \<and> sustained (fst (step ex_env (1, 1, True) (ex_matcher, ex_world)))
   \<and> active_view (fst (step ex_env (1, 0, False)
        (step ex_env (1, 1, True) (ex_matcher, ex_world)))) = Some ex_V
   \<and> \<not> sustained (fst (step ex_env (1, 0, False)
        (step ex_env (1, 1, True) (ex_matcher, ex_world))))
   \<and> ctl_value (controls (snd (step ex_env (1, 0, False)
        (step ex_env (1, 1, True) (ex_matcher, ex_world)))) 1) = 1
   \<and> ctl_color (controls (snd (step ex_env (1, 0, False)
        (step ex_env (1, 1, True) (ex_matcher, ex_world)))) 1) = ENABLED
   \<and> active_view (fst (step ex_env (1, 0, False) (step ex_env (1, 1, False)
        (step ex_env (1, 0, False) (step ex_env (1, 1, True) (ex_matcher, ex_world)))))) = None
   \<and> ctl_color (controls (snd (step ex_env (1, 0, False) (step ex_env (1, 1, False)
        (step ex_env (1, 0, False) (step ex_env (1, 1, True) (ex_matcher, ex_world)))))) 1)
       = DISABLED"
  using C2_double_press_sustains [of ex_matcher ex_V ex_env "(1, 1, True)" ex_world
      "\<lparr>ev_control = 1, ev_value = 1, ev_double = True\<rparr>"
      "\<lparr>ctl_value = 1, ctl_color = Color 0, hidden = (1, Some 1)\<rparr>"
      "step ex_env (1, 1, True) (ex_matcher, ex_world)"
      "(1, 0, False)"
      "\<lparr>ev_control = 1, ev_value = 0, ev_double = False\<rparr>"
      "\<lparr>ctl_value = 0, ctl_color = ENABLED, hidden = (1, Some 1)\<rparr>"
      "step ex_env (1, 0, False) (step ex_env (1, 1, True) (ex_matcher, ex_world))"
      "(1, 1, False)"
      "\<lparr>ev_control = 1, ev_value = 1, ev_double = False\<rparr>"
      "\<lparr>ctl_value = 1, ctl_color = ENABLED, hidden = (1, Some 1)\<rparr>"
      "step ex_env (1, 1, False)
         (step ex_env (1, 0, False) (step ex_env (1, 1, True) (ex_matcher, ex_world)))"
      "(1, 0, False)"
      "\<lparr>ev_control = 1, ev_value = 0, ev_double = False\<rparr>"
      "\<lparr>ctl_value = 0, ctl_color = ENABLED, hidden = (1, Some 1)\<rparr>"
      "step ex_env (1, 0, False) (step ex_env (1, 1, False)
         (step ex_env (1, 0, False) (step ex_env (1, 1, True) (ex_matcher, ex_world))))"]
  by (simp add: matcher_defs ex_defs)

text \<open>
  C2 as stated fails for a view that is disabled in other views: while \<open>ex_V\<close> is
  active, a double press that the trigger of \<open>ex_W\<close> matches is claimed by no view;
  after the call \<open>ex_V\<close> is still the active view and the matcher is not sustained.
\<close>

theorem C2_counterexample:
  "active_view (fst (step ex_env (1, 1, False) (ex_matcher, ex_world))) = Some ex_V
   \<and> ex_W \<in> set (views ex_matcher) \<and> ex_W \<noteq> ex_V
   \<and> cs_match ex_env (2, 1, True)
        (controls (snd (step ex_env (1, 1, False) (ex_matcher, ex_world))) (trigger ex_W)) =
       Some (\<lparr>ev_control = 2, ev_value = 1, ev_double = True\<rparr>,
             \<lparr>ctl_value = 1, ctl_color = Color 0, hidden = (2, Some 2)\<rparr>)
   \<and> claimant ex_env (2, 1, True) (views ex_matcher)
        (fst (step ex_env (1, 1, False) (ex_matcher, ex_world)))
        (snd (step ex_env (1, 1, False) (ex_matcher, ex_world))) = None
   \<and> active_view (fst (step ex_env (2, 1, True)
        (step ex_env (1, 1, False) (ex_matcher, ex_world)))) = Some ex_V
   \<and> \<not> sustained (fst (step ex_env (2, 1, True)
        (step ex_env (1, 1, False) (ex_matcher, ex_world))))"
  by (simp add: matcher_defs ex_defs)


subsection \<open>The invariant\<close>

lemma matcher_inv_step:
  assumes "matcher_inv self"
  shows "matcher_inv (fst (step env event (self, w)))
    \<and> views (fst (step env event (self, w))) = views self"
proof (cases "claimant env event (views self) self w")
  case None
  then show ?thesis
    using assms matchEvent_unclaimed [OF None] by (simp add: step_def)
next
  case (Some a)
  obtain v control c where a: "a = (v, control, c)" by (cases a)
  have v: "v \<in> set (views self)"
    using claimant_sound Some a by fastforce
  have st: "fst (step env event (self, w)) =
      fst (snd (on_trigger env event v control self (put_control (trigger v) c w)))"
    using Some a by (simp add: step_def matchEvent_claimed split: prod.split)
  show ?thesis
    unfolding st
    using assms v
    by (auto simp add: matcher_inv_def on_trigger_def split: option.splits if_splits)
qed

lemma matcher_inv_tick:
  "matcher_inv self \<Longrightarrow>
     matcher_inv (fst (tick env self thorough w)) \<and> views (fst (tick env self thorough w)) = views self"
  by (simp add: tick_def matcher_inv_def split: option.splits)

lemma matcher_inv_host_step:
  "matcher_inv (fst s) \<Longrightarrow>
     matcher_inv (fst (host_step env s call)) \<and> views (fst (host_step env s call)) = views (fst s)"
  using matcher_inv_step [of "fst s" env _ "snd s"] matcher_inv_tick [of "fst s" env _ "snd s"]
  by (cases call) simp_all

lemma matcher_inv_run:
  "matcher_inv (fst s) \<Longrightarrow>
     matcher_inv (fst (run env s calls)) \<and> views (fst (run env s calls)) = views (fst s)"
  unfolding run_def
proof (induction calls arbitrary: s)
  case Nil
  then show ?case by simp
next
  case (Cons call calls)
  have "matcher_inv (fst (host_step env s call))"
    and "views (fst (host_step env s call)) = views (fst s)"
    using matcher_inv_host_step [OF Cons.prems, of env call] by simp_all
  then show ?case using Cons.IH [of "host_step env s call"] by simp
qed

text \<open>
  C4. In every state reached from the constructor's state by calls of \<open>matchEvent\<close>
  and \<open>tick\<close>, the active view is a single optional view, one of the registered views
  when there is one, and a sustained matcher has an active view.
\<close>

theorem C4_invariant:
  assumes "s = run env (ShiftMatcher_init null_h main_view vs, w) calls"
  shows "(sustained (fst s) \<longrightarrow> active_view (fst s) \<noteq> None)
    \<and> (\<forall>v. active_view (fst s) = Some v \<longrightarrow> v \<in> set vs)
    \<and> views (fst s) = vs"
proof -
  have "matcher_inv (fst (ShiftMatcher_init null_h main_view vs, w))"
    by (simp add: matcher_inv_def ShiftMatcher_init_def)
  from matcher_inv_run [OF this, of env calls] show ?thesis
    using assms by (auto simp add: matcher_inv_def ShiftMatcher_init_def split: option.splits if_splits)
qed

theorem C4_witness:
  "sustained (fst (run ex_env (ShiftMatcher_init 0 0 [ex_V, ex_W], ex_world)
       [Tick False, MatchEvent (1, 1, False), MatchEvent (1, 0, False), Tick True,
        MatchEvent (1, 1, True)]))
   \<and> active_view (fst (run ex_env (ShiftMatcher_init 0 0 [ex_V, ex_W], ex_world)
       [Tick False, MatchEvent (1, 1, False), MatchEvent (1, 0, False), Tick True,
        MatchEvent (1, 1, True)])) = Some ex_V
   \<and> ex_V \<in> set [ex_V, ex_W]"
  using C4_invariant [of _ ex_env 0 0 "[ex_V, ex_W]" ex_world
        "[Tick False, MatchEvent (1, 1, False), MatchEvent (1, 0, False), Tick True,
        MatchEvent (1, 1, True)]", OF refl]
  by (simp add: run_def tick_def tick_calls_def tick_view_def matcher_defs ex_defs)


subsection \<open>Views disabled in other views\<close>

lemma on_trigger_views_update:
  "on_trigger env event v control (self\<lparr>views := vs\<rparr>) w =
     (case on_trigger env event v control self w of
        (r, self', w') \<Rightarrow> (r, self'\<lparr>views := vs\<rparr>, w'))"
  by (simp add: on_trigger_def split: option.split)

lemma skip_view_views_update [simp]: "skip_view (self\<lparr>views := vs\<rparr>) v = skip_view self v"
  by (simp add: skip_view_def)

lemma claimant_views_update [simp]:
  "claimant env event us (self\<lparr>views := vs\<rparr>) w = claimant env event us self w"
  by (induction us) (simp_all split: option.split)

lemma on_trigger_active:
  "active_view (fst (snd (on_trigger env event v control self w))) = None
   \<or> active_view (fst (snd (on_trigger env event v control self w))) = Some v
   \<or> active_view (fst (snd (on_trigger env event v control self w))) = active_view self"
  by (simp add: on_trigger_def split: option.split)

text \<open>
  C6. While view \<open>V\<close> is active, a different view \<open>W\<close> that is disabled in other views
  is never tested: for every event, also one that \<open>W\<close>'s trigger would match, the loop
  over the triggers gives what it gives with \<open>W\<close> taken out of the registered views,
  \<open>W\<close> is not the active view after the call, and the matcher after the call is the
  one that the matcher without \<open>W\<close> reaches.
\<close>

theorem C6_disabled_view_not_tested:
  assumes "active_view self = Some V" and "W \<noteq> V" and "disable_in_other_views W"
  shows "trigger_loop env event (views self) self w =
       trigger_loop env event (removeAll W (views self)) self w
    \<and> active_view (fst (step env event (self, w))) \<noteq> Some W
    \<and> fst (step env event (self\<lparr>views := removeAll W (views self)\<rparr>, w)) =
       (fst (step env event (self, w)))\<lparr>views := removeAll W (views self)\<rparr>"
proof -
  have skip: "skip_view self W"
    using assms by (simp add: skip_view_def)
  have loop: "trigger_loop env event (views self) self w =
       trigger_loop env event (removeAll W (views self)) self w"
    by (simp add: trigger_loop_claimant claimant_removeAll [OF skip])
  have cl: "claimant env event (views (self\<lparr>views := removeAll W (views self)\<rparr>))
       (self\<lparr>views := removeAll W (views self)\<rparr>) w = claimant env event (views self) self w"
    by (simp add: claimant_removeAll [OF skip])
  show ?thesis
  proof (cases "claimant env event (views self) self w")
    case None
    have "fst (step env event (self, w)) = self"
      using matchEvent_unclaimed [OF None] by (simp add: step_def)
    moreover have "fst (step env event (self\<lparr>views := removeAll W (views self)\<rparr>, w)) =
        self\<lparr>views := removeAll W (views self)\<rparr>"
      using matchEvent_unclaimed [of env event "self\<lparr>views := removeAll W (views self)\<rparr>" w]
        cl None by (simp add: step_def)
    ultimately show ?thesis using loop assms by simp
  next
    case (Some a)
    obtain v control c where a: "a = (v, control, c)" by (cases a)
    have "\<not> skip_view self v"
      using claimant_sound Some a by fastforce
    then have vW: "v \<noteq> W" using skip by auto
    have st: "fst (step env event (self, w)) =
        fst (snd (on_trigger env event v control self (put_control (trigger v) c w)))"
      using Some a by (simp add: step_def matchEvent_claimed split: prod.split)
    have st': "fst (step env event (self\<lparr>views := removeAll W (views self)\<rparr>, w)) =
        (fst (snd (on_trigger env event v control self (put_control (trigger v) c w))))
          \<lparr>views := removeAll W (views self)\<rparr>"
      using cl Some a
      by (simp add: step_def matchEvent_claimed on_trigger_views_update split: prod.split)
    have "active_view (fst (step env event (self, w))) \<noteq> Some W"
      unfolding st
      using on_trigger_active [of env event v control self "put_control (trigger v) c w"]
        vW assms(1,2) by auto
    then show ?thesis using loop st st' by simp
  qed
qed

theorem C6_witness:
  "active_view (fst (step ex_env (1, 1, False) (ex_matcher, ex_world))) = Some ex_V
   \<and> ex_W \<noteq> ex_V \<and> disable_in_other_views ex_W
   \<and> cs_match ex_env (2, 1, True)
        (controls (snd (step ex_env (1, 1, False) (ex_matcher, ex_world))) (trigger ex_W)) \<noteq> None
   \<and> active_view (fst (step ex_env (2, 1, True)
        (step ex_env (1, 1, False) (ex_matcher, ex_world)))) = Some ex_V
   \<and> fst (step ex_env (2, 1, True) (step ex_env (1, 1, False) (ex_matcher, ex_world))) =
       fst (step ex_env (1, 1, False) (ex_matcher, ex_world))"
  using C6_disabled_view_not_tested [of "fst (step ex_env (1, 1, False) (ex_matcher, ex_world))"
      ex_V ex_W ex_env "(2, 1, True)" "snd (step ex_env (1, 1, False) (ex_matcher, ex_world))"]
  by (simp add: matcher_defs ex_defs)

subsection \<open>tick\<close>

lemma tick_view_DoTick:
  "active_view self = Some v \<or> \<not> disable_in_other_views v \<Longrightarrow>
     DoTick (trigger v) thorough \<in> set (tick_view env self thorough v)"
  by (auto simp add: tick_view_def)

lemma tick_view_no_MatcherTick: "filter is_MatcherTick (tick_view env self thorough v) = []"
  by (simp add: tick_view_def)

lemma tick_views_no_MatcherTick:
  "filter is_MatcherTick (concat (map (tick_view env self thorough) vs)) = []"
  by (induction vs) (simp_all add: tick_view_no_MatcherTick)

text \<open>
  The dirty flag records the changes of the active view: a call of \<open>matchEvent\<close> that
  changes the active view sets it, and no call of \<open>matchEvent\<close> clears it.
\<close>

lemma on_trigger_changed_mono:
  "changed self \<Longrightarrow> changed (fst (snd (on_trigger env event v control self w)))"
  by (simp add: on_trigger_def split: option.split)

lemma on_trigger_active_changed:
  "active_view (fst (snd (on_trigger env event v control self w))) \<noteq> active_view self \<Longrightarrow>
     changed (fst (snd (on_trigger env event v control self w)))"
  by (auto simp add: on_trigger_def split: option.splits if_splits prod.splits)

lemma step_on_trigger:
  assumes "claimant env event (views (fst s)) (fst s) (snd s) = Some (v, control, c)"
  shows "fst (step env event s) =
     fst (snd (on_trigger env event v control (fst s) (put_control (trigger v) c (snd s))))"
  using assms by (simp add: step_def matchEvent_claimed split: prod.split)

lemma step_changed_mono:
  assumes "changed (fst s)"
  shows "changed (fst (step env event s))"
proof (cases "claimant env event (views (fst s)) (fst s) (snd s)")
  case None
  then show ?thesis using assms matchEvent_unclaimed [OF None] by (simp add: step_def)
next
  case (Some a)
  obtain v control c where "a = (v, control, c)" by (cases a)
  then show ?thesis
    using Some assms by (simp add: step_on_trigger on_trigger_changed_mono)
qed

lemma step_active_changed:
  assumes "active_view (fst (step env event s)) \<noteq> active_view (fst s)"
  shows "changed (fst (step env event s))"
proof (cases "claimant env event (views (fst s)) (fst s) (snd s)")
  case None
  then show ?thesis using assms matchEvent_unclaimed [OF None] by (simp add: step_def)
next
  case (Some a)
  obtain v control c where a: "a = (v, control, c)" by (cases a)
  have st: "fst (step env event s) =
     fst (snd (on_trigger env event v control (fst s) (put_control (trigger v) c (snd s))))"
    using Some a by (simp add: step_on_trigger)
  show ?thesis
    using assms unfolding st by (rule on_trigger_active_changed)
qed

lemma matchEvents_changed_mono:
  "changed (fst s) \<Longrightarrow> changed (fst (run env s (map MatchEvent events)))"
  unfolding run_def
  by (induction events arbitrary: s) (simp_all add: step_changed_mono)

text \<open>
  C5, as the code has it. Every \<open>tick\<close> clears the dirty flag. When the dirty flag is
  set, and so whenever a call of \<open>matchEvent\<close> since the previous \<open>tick\<close> has changed
  the active view (a view was opened or closed), the trigger of every registered view
  that is the active view, or that is not disabled in other views, is ticked
  thoroughly. And every \<open>tick\<close> ticks exactly one sub-matcher: that of the active view
  when there is one, the main matcher otherwise, thoroughly when the dirty flag was set
  or the caller asked for it. In the statement \<open>s0\<close> is any state (the one left by the
  previous \<open>tick\<close>), followed by calls of \<open>matchEvent\<close> only.
\<close>

theorem C5_tick:
  assumes "s1 = run env s0 (map MatchEvent before)"
    and "s2 = step env event s1"
    and "s3 = run env s2 (map MatchEvent after)"
  shows "\<not> changed (fst (tick env self thorough w))
   \<and> (changed self \<longrightarrow>
        (\<forall>v \<in> set (views self).
           active_view self = Some v \<or> \<not> disable_in_other_views v \<longrightarrow>
           DoTick (trigger v) True \<in> set (tick_calls env self thorough)))
   \<and> (active_view (fst s2) \<noteq> active_view (fst s1) \<longrightarrow>
        changed (fst s3)
        \<and> (\<forall>v \<in> set (views (fst s3)).
             active_view (fst s3) = Some v \<or> \<not> disable_in_other_views v \<longrightarrow>
             DoTick (trigger v) True \<in> set (tick_calls env (fst s3) thorough)))
   \<and> filter is_MatcherTick (tick_calls env self thorough) =
       [MatcherTick (case active_view self of None \<Rightarrow> main self | Some av \<Rightarrow> view av)
          (changed self \<or> thorough)]"
proof -
  have a: "\<not> changed (fst (tick env self thorough w))"
    by (simp add: tick_def)
  have b: "DoTick (trigger v) True \<in> set (tick_calls env m thorough)"
    if "changed m" and "v \<in> set (views m)"
      and "active_view m = Some v \<or> \<not> disable_in_other_views v" for v m
    using that tick_view_DoTick [of m v True env]
    by (auto simp add: tick_calls_def)
  have c: "filter is_MatcherTick (tick_calls env self thorough) =
       [MatcherTick (case active_view self of None \<Rightarrow> main self | Some av \<Rightarrow> view av)
          (changed self \<or> thorough)]"
    by (simp add: tick_calls_def Let_def tick_views_no_MatcherTick split: option.split)
  have d: "changed (fst s3)" if "active_view (fst s2) \<noteq> active_view (fst s1)"
    using that step_active_changed [of env event s1] matchEvents_changed_mono [of s2 env after]
      assms(2,3) by simp
  show ?thesis using a b c d by blast
qed

theorem C5_witness:
  "\<not> changed (fst (run ex_env (ex_matcher, ex_world) [Tick False]))
   \<and> active_view (fst (run ex_env (ex_matcher, ex_world) [Tick False])) = None
   \<and> active_view (fst (run ex_env (ex_matcher, ex_world) [Tick False, MatchEvent (1, 1, False)]))
       = Some ex_V
   \<and> changed (fst (run ex_env (ex_matcher, ex_world)
        [Tick False, MatchEvent (1, 1, False), MatchEvent (10, 1, False)]))
   \<and> ex_V \<in> set (views (fst (run ex_env (ex_matcher, ex_world)
        [Tick False, MatchEvent (1, 1, False), MatchEvent (10, 1, False)])))
   \<and> DoTick (trigger ex_V) True \<in>
       set (tick_calls ex_env (fst (run ex_env (ex_matcher, ex_world)
         [Tick False, MatchEvent (1, 1, False), MatchEvent (10, 1, False)])) False)
   \<and> \<not> changed (fst (run ex_env (ex_matcher, ex_world)
        [Tick False, MatchEvent (1, 1, False), MatchEvent (10, 1, False), Tick False]))
   \<and> filter is_MatcherTick
       (tick_calls ex_env (fst (run ex_env (ex_matcher, ex_world)
         [Tick False, MatchEvent (1, 1, False), MatchEvent (10, 1, False)])) False) =
       [MatcherTick (view ex_V) True]"
  using C5_tick [of "run ex_env (ex_matcher, ex_world) [Tick False]" ex_env
      "run ex_env (ex_matcher, ex_world) [Tick False]" "[]"
      "run ex_env (ex_matcher, ex_world) [Tick False, MatchEvent (1, 1, False)]" "(1, 1, False)"
      "run ex_env (ex_matcher, ex_world)
         [Tick False, MatchEvent (1, 1, False), MatchEvent (10, 1, False)]"
      "[(10, 1, False)]"
      "fst (run ex_env (ex_matcher, ex_world)
         [Tick False, MatchEvent (1, 1, False), MatchEvent (10, 1, False)])"
      False
      "snd (run ex_env (ex_matcher, ex_world)
         [Tick False, MatchEvent (1, 1, False), MatchEvent (10, 1, False)])"]
  by (simp add: tick_defs matcher_defs ex_defs)

text \<open>
  C5 as stated fails in two ways. First, after a press on the trigger of \<open>ex_V\<close> the
  dirty flag is set and \<open>ex_V\<close> is active; \<open>ex_W\<close> is registered and disabled in other
  views, and the next \<open>tick\<close> does not tick its trigger at all. Second, the lift of
  the sustained \<open>ex_V\<close> after a \<open>tick\<close> changes the matcher (it clears the sustained
  flag) without setting the dirty flag, and the next \<open>tick\<close> is not thorough.
\<close>

theorem C5_counterexample:
  "changed (fst (step ex_env (1, 1, False) (ex_matcher, ex_world)))
   \<and> ex_W \<in> set (views (fst (step ex_env (1, 1, False) (ex_matcher, ex_world))))
   \<and> DoTick (trigger ex_W) True \<notin>
       set (tick_calls ex_env (fst (step ex_env (1, 1, False) (ex_matcher, ex_world))) False)
   \<and> DoTick (trigger ex_W) False \<notin>
       set (tick_calls ex_env (fst (step ex_env (1, 1, False) (ex_matcher, ex_world))) False)
   \<and> sustained (fst (run ex_env (ex_matcher, ex_world) [MatchEvent (1, 1, True), Tick False]))
   \<and> \<not> sustained (fst (run ex_env (ex_matcher, ex_world)
        [MatchEvent (1, 1, True), Tick False, MatchEvent (1, 0, False)]))
   \<and> active_view (fst (run ex_env (ex_matcher, ex_world)
        [MatchEvent (1, 1, True), Tick False, MatchEvent (1, 0, False)])) = Some ex_V
   \<and> \<not> changed (fst (run ex_env (ex_matcher, ex_world)
        [MatchEvent (1, 1, True), Tick False, MatchEvent (1, 0, False)]))
   \<and> tick_calls ex_env (fst (run ex_env (ex_matcher, ex_world)
        [MatchEvent (1, 1, True), Tick False, MatchEvent (1, 0, False)])) False =
       [DoTick (trigger ex_V) False, MatcherTick (view ex_V) False]"
  by (simp add: tick_defs matcher_defs ex_defs)

subsection \<open>The fallback match\<close>

text \<open>
  What line 155 does: when no view claims the event and the active view's sub-matcher
  does not match it, the flag that decides on the fallback is the one of the last
  registered view.
\<close>

lemma fallback_reads_last_view:
  assumes "claimant env event (views self) self w = None"
    and "active_view self = Some av"
    and "m_matchEvent env (view av) event w = (None, w1)"
    and "views self \<noteq> []"
  shows "returned env event (self, w) =
     (if allow_fallback_match (last (views self))
      then Inr (fst (m_matchEvent env (main self) event w1)) else Inr None)"
  using assms
  by (simp add: returned_def matchEvent_def trigger_loop_claimant split: prod.split)

text \<open>
  C1. The claim is that the active view's \<open>allow_fallback_match\<close> decides whether an
  event that the active view's sub-matcher does not match falls back to the main
  matcher. On the matcher built from \<open>ex_V\<close> (fallback not allowed) and \<open>ex_W\<close>
  (fallback allowed), after a press that makes \<open>ex_V\<close> the active view, an event that
  no trigger claims, that the sub-matcher of \<open>ex_V\<close> does not match and that the main
  matcher matches is answered with the main matcher's match, where the claim asks for
  no match.
\<close>

theorem C1_fallback_reads_last_view:
  "active_view (fst (step ex_env (1, 1, False) (ex_matcher, ex_world))) = Some ex_V
   \<and> allow_fallback_match ex_V = False
   \<and> claimant ex_env (10, 1, False) (views ex_matcher)
        (fst (step ex_env (1, 1, False) (ex_matcher, ex_world)))
        (snd (step ex_env (1, 1, False) (ex_matcher, ex_world))) = None
   \<and> fst (m_matchEvent ex_env (view ex_V) (10, 1, False)
        (snd (step ex_env (1, 1, False) (ex_matcher, ex_world)))) = None
   \<and> fst (m_matchEvent ex_env (main ex_matcher) (10, 1, False)
        (snd (step ex_env (1, 1, False) (ex_matcher, ex_world)))) =
       Some \<lparr>ev_control = 10, ev_value = 1, ev_double = False\<rparr>
   \<and> returned ex_env (10, 1, False) (step ex_env (1, 1, False) (ex_matcher, ex_world))
       = Inr (Some \<lparr>ev_control = 10, ev_value = 1, ev_double = False\<rparr>)"
  by (simp add: matcher_defs ex_defs)


end
